theory Spec2Isabelle
  imports Main
begin

section \<open>Base58 fragment encoding\<close>

text \<open>
  Byte strings and text strings of the contract are both lists of characters: the
  virtual machine the contract is compiled for does not tell them apart.
\<close>

type_synonym bytes = string

text \<open>
  The two builtins of the compiler that the contract imports: \<open>concat(a, b)\<close> joins two
  byte strings, \<open>substr(s, start, count)\<close> cuts \<open>count\<close> bytes out of \<open>s\<close> from
  position \<open>start\<close>.
\<close>

definition concat_bytes :: "bytes \<Rightarrow> bytes \<Rightarrow> bytes" where
  "concat_bytes a b = a @ b"

definition substr :: "bytes \<Rightarrow> nat \<Rightarrow> nat \<Rightarrow> bytes" where
  "substr s start count = take count (drop start s)"

definition alphabet :: bytes where
  "alphabet = ''123456789ABCDEFGHJKLMNPQRSTUVWXYZabcdefghijkmnopqrstuvwxyz''"

text \<open>The initial value of \<open>code\<close> in \<open>b58encode\<close>: the one-byte string \<open>'\x00'\<close>.\<close>

definition NUL :: bytes where
  "NUL = [CHR 0x00]"

text \<open>
  The \<open>while\<close> loop of \<open>b58encode\<close> over its three variables \<open>i\<close>, \<open>code\<close> and
  \<open>current_length\<close>. The result is the value of \<open>code\<close> when the loop is left, together
  with the value of \<open>current_length\<close>, which counts the iterations. Python's \<open>//\<close> and
  \<open>%\<close> round towards minus infinity, as \<open>div\<close> and \<open>mod\<close> on \<open>int\<close> do, so
  \<open>i % 58\<close> is an index between 0 and 57 for every integer \<open>i\<close>.
\<close>

function b58encode_loop :: "int \<Rightarrow> int \<Rightarrow> bytes \<Rightarrow> int \<Rightarrow> bytes \<times> int" where
  "b58encode_loop i max_length code current_length =
     (if i \<noteq> 0 \<and> current_length < max_length then
        let newi = i div 58;
            idx = i mod 58;
            c = substr alphabet (nat idx) 1;
            code' = (if code = NUL then c else concat_bytes c code)
        in b58encode_loop newi max_length code' (current_length + 1)
      else (code, current_length))"
  by pat_completeness auto
termination
  by (relation "measure (\<lambda>(i, max_length, code, current_length). nat (max_length - current_length))")
     auto

declare b58encode_loop.simps [simp del]

definition b58encode :: "int \<Rightarrow> int \<Rightarrow> bytes" where
  "b58encode i max_length = fst (b58encode_loop i max_length NUL 0)"

text \<open>
  The digit string the specification describes: the \<open>k\<close> least-significant base-58
  digits of \<open>i\<close>, most significant first, each written with the alphabet.
\<close>

definition low_digits :: "nat \<Rightarrow> int \<Rightarrow> bytes" where
  "low_digits k i = map (\<lambda>j. alphabet ! nat (i div 58 ^ j mod 58)) (rev [0..<k])"


section \<open>The host environment\<close>

text \<open>
  The contract runs inside a virtual machine that supplies the trigger, the witnesses of the
  invocation, the height of the chain, the transaction that carries the invocation, a
  key-value storage and two output channels. None of this is code of the contract; the
  model below gives each imported function the meaning its use in the contract relies on.
\<close>

datatype trigger_type = Verification | Application | OtherTrigger

record tx_output =
  ScriptHash :: bytes

record transaction =
  References :: "tx_output list"

record host =
  Trigger :: trigger_type
  Witnesses :: "bytes list"
  Height :: int
  ScriptContainer :: transaction

text \<open>
  What an invocation leaves behind, in the order it happens: a \<open>Notify\<close>, a \<open>Put\<close>
  into the storage, or an event dispatched through a registered action.
\<close>

datatype effect = Notified bytes | Stored bytes bytes | Dispatched bytes "bytes list"

record ledger =
  storage :: "bytes \<rightharpoonup> bytes"
  log :: "effect list"

text \<open>Values the entry point returns: a boolean, a byte string, or a list of values.\<close>

datatype val = VBool bool | VBytes bytes | VList "val list"

text \<open>Python raises \<open>IndexError\<close> where a list is read outside its range.\<close>

datatype error = IndexError

definition GetTrigger :: "host \<Rightarrow> trigger_type" where
  "GetTrigger h = Trigger h"

definition CheckWitness :: "host \<Rightarrow> bytes \<Rightarrow> bool" where
  "CheckWitness h script_hash = (script_hash \<in> set (Witnesses h))"

definition GetHeight :: "host \<Rightarrow> int" where
  "GetHeight h = Height h"

definition GetScriptContainer :: "host \<Rightarrow> transaction" where
  "GetScriptContainer h = ScriptContainer h"

definition GetScriptHash :: "tx_output \<Rightarrow> bytes" where
  "GetScriptHash ref = ScriptHash ref"

definition Notify :: "bytes \<Rightarrow> ledger \<Rightarrow> ledger" where
  "Notify v s = s\<lparr>log := log s @ [Notified v]\<rparr>"

text \<open>
  The storage context returned by \<open>GetContext()\<close> names the one storage of the contract;
  it is the \<open>storage\<close> field of the ledger. \<open>Get\<close> of a key that was never written
  returns the empty byte string.
\<close>

definition Put :: "bytes \<Rightarrow> bytes \<Rightarrow> ledger \<Rightarrow> ledger" where
  "Put k v s = s\<lparr>storage := (storage s)(k \<mapsto> v), log := log s @ [Stored k v]\<rparr>"

definition Get :: "ledger \<Rightarrow> bytes \<Rightarrow> bytes" where
  "Get s k = (case storage s k of None \<Rightarrow> [] | Some v \<Rightarrow> v)"

text \<open>\<open>DispatchNewURLEvent = RegisterAction('urladd', 'code', 'url')\<close>\<close>

definition DispatchNewURLEvent :: "bytes \<Rightarrow> bytes \<Rightarrow> ledger \<Rightarrow> ledger" where
  "DispatchNewURLEvent code url s = s\<lparr>log := log s @ [Dispatched ''urladd'' [code, url]]\<rparr>"

section \<open>The contract\<close>

definition OWNER :: bytes where
  "OWNER = replicate 20 (CHR 0x00)"

definition SHORTENER_URL :: bytes where
  "SHORTENER_URL = ''https://ledgr.link''"

definition get_contextkey_for_url :: "bytes \<Rightarrow> bytes" where
  "get_contextkey_for_url code = concat_bytes code ''__url''"

definition get_contextkey_for_sender :: "bytes \<Rightarrow> bytes" where
  "get_contextkey_for_sender code = concat_bytes code ''__sender''"

text \<open>
  \<open>add_url\<close> hands the script hash of the sender and the URL, both byte strings, to
  \<open>b58encode\<close>, which computes with them as integers. How a byte string is read as an
  integer is decided by the virtual machine, not by the contract: it is the parameter
  \<open>to_int\<close>. \<open>references[0]\<close> fails on a transaction without references, before anything
  is notified or stored.
\<close>

definition add_url :: "(bytes \<Rightarrow> int) \<Rightarrow> host \<Rightarrow> bytes \<Rightarrow> ledger \<Rightarrow> error + (val \<times> ledger)" where
  "add_url to_int h url s =
     (let current_height = GetHeight h;
          tx = GetScriptContainer h;
          references = References tx
      in case references of
           [] \<Rightarrow> Inl IndexError
         | ref # _ \<Rightarrow>
             let sender = GetScriptHash ref;
                 s1 = b58encode current_height 11;
                 s2 = b58encode (to_int sender) 2;
                 s3 = b58encode (to_int url) 2;
                 code_part1 = concat_bytes s1 s2;
                 code = concat_bytes code_part1 s3;
                 s = Notify code s;
                 contextkey_for_url = get_contextkey_for_url code;
                 contextkey_for_sender = get_contextkey_for_sender code;
                 s = Put contextkey_for_url url s;
                 s = Put contextkey_for_sender sender s;
                 s = DispatchNewURLEvent code url s
             in Inr (VBool True, s))"

definition get_url :: "bytes \<Rightarrow> ledger \<Rightarrow> val \<times> ledger" where
  "get_url code s =
     (let contextkey_for_url = get_contextkey_for_url code;
          url = Get s contextkey_for_url
      in (VBytes url, s))"

definition get_url_info :: "bytes \<Rightarrow> ledger \<Rightarrow> val \<times> ledger" where
  "get_url_info code s =
     (let contextkey_for_url = get_contextkey_for_url code;
          contextkey_for_sender = get_contextkey_for_sender code;
          url = Get s contextkey_for_url;
          sender = Get s contextkey_for_sender;
          result = VList [VBytes url, VBytes sender]
      in (result, s))"

text \<open>
  The entry point. Each \<open>args[0]\<close> is read under \<open>len(args) == 1\<close>, so it is the first
  element of a one-element list.
\<close>

definition Main :: "(bytes \<Rightarrow> int) \<Rightarrow> host \<Rightarrow> bytes \<Rightarrow> bytes list \<Rightarrow> ledger \<Rightarrow> error + (val \<times> ledger)" where
  "Main to_int h operation args s =
     (let arg_length_error = ''Incorrect number of arguments'';
          trigger = GetTrigger h
      in if trigger = Verification then
           (let is_owner = CheckWitness h OWNER
            in if is_owner then Inr (VBool True, s) else Inr (VBool False, s))
         else if trigger = Application then
           (if operation = ''shortenerURL'' then
              (let url = SHORTENER_URL in Inr (VBytes url, s))
            else if operation = ''addURL'' then
              (if length args = 1 then
                 (let url = args ! 0; result = add_url to_int h url s in result)
               else Inr (VBytes arg_length_error, s))
            else if operation = ''getURL'' then
              (if length args = 1 then
                 (let code = args ! 0; result = get_url code s in Inr result)
               else Inr (VBytes arg_length_error, s))
            else if operation = ''getURLInfo'' then
              (if length args = 1 then
                 (let code = args ! 0; result = get_url_info code s in Inr result)
               else Inr (VBytes arg_length_error, s))
            else (let result = ''unknown operation'' in Inr (VBytes result, s)))
         else Inr (VBool False, s))"

text \<open>The effects an invocation added to the log of the ledger it started from.\<close>

definition new_effects :: "ledger \<Rightarrow> ledger \<Rightarrow> effect list" where
  "new_effects s s' = drop (length (log s)) (log s')"


text \<open>The keys an invocation wrote, read off the effects it added.\<close>

fun written_keys :: "effect list \<Rightarrow> bytes list" where
  "written_keys [] = []"
| "written_keys (Stored k v # es) = k # written_keys es"
| "written_keys (e # es) = written_keys es"

section \<open>An example invocation\<close>

text \<open>
  Inputs for the concrete instances below: height 100, a sender with the two-byte script
  hash \<open>0x0102\<close>, an empty ledger, and the big-endian unsigned reading of a byte string
  as one possible \<open>to_int\<close>.
\<close>

definition be_int :: "bytes \<Rightarrow> int" where
  "be_int bs = foldl (\<lambda>a c. 256 * a + of_char c) 0 bs"

definition example_host :: "trigger_type \<Rightarrow> bytes list \<Rightarrow> host" where
  "example_host t ws =
     \<lparr>Trigger = t, Witnesses = ws, Height = 100,
      ScriptContainer = \<lparr>References = [\<lparr>ScriptHash = [CHR 0x01, CHR 0x02]\<rparr>]\<rparr>\<rparr>"

definition bare_host :: host where
  "bare_host =
     \<lparr>Trigger = Application, Witnesses = [], Height = 100,
      ScriptContainer = \<lparr>References = []\<rparr>\<rparr>"

definition empty_ledger :: ledger where
  "empty_ledger = \<lparr>storage = Map.empty, log = []\<rparr>"


section \<open>Properties of the encoding\<close>

subsection \<open>The alphabet and the digit strings\<close>

lemma alphabet_length: "length alphabet = 58"
  by (simp add: alphabet_def)

lemma NUL_notin_alphabet: "CHR 0x00 \<notin> set alphabet"
  by (simp add: alphabet_def)

lemma substr_alphabet: "n < 58 \<Longrightarrow> substr alphabet n (Suc 0) = [alphabet ! n]"
  by (simp add: substr_def alphabet_length hd_drop_conv_nth take_Suc)

lemma substr_digit: "substr alphabet (nat (i mod 58)) 1 = [alphabet ! nat (i mod 58)]"
proof -
  have "nat (i mod 58) < 58" by simp
  then show ?thesis using substr_alphabet by simp
qed

lemma alphabet_nth_not_NUL: "n < 58 \<Longrightarrow> [alphabet ! n] \<noteq> NUL"
proof -
  assume "n < 58"
  then have "alphabet ! n \<in> set alphabet" by (simp add: alphabet_length)
  with NUL_notin_alphabet have "alphabet ! n \<noteq> CHR 0x00" by metis
  then show ?thesis by (simp add: NUL_def)
qed

lemma low_digits_0: "low_digits 0 i = []"
  by (simp add: low_digits_def)

lemma low_digits_Suc:
  "low_digits (Suc k) i = low_digits k (i div 58) @ [alphabet ! nat (i mod 58)]"
proof -
  have "[0..<Suc k] = 0 # map Suc [0..<k]"
    by (simp add: upt_conv_Cons map_Suc_upt del: upt_Suc)
  then have "rev [0..<Suc k] = map Suc (rev [0..<k]) @ [0]"
    by (simp add: rev_map)
  moreover have "i div 58 div 58 ^ j = i div 58 ^ Suc j" for j
    by (simp add: zdiv_zmult2_eq)
  ultimately show ?thesis
    by (simp add: low_digits_def comp_def del: upt_Suc power_Suc)
qed

lemma low_digits_length: "length (low_digits k i) = k"
  by (simp add: low_digits_def)

lemma low_digits_alphabet: "set (low_digits k i) \<subseteq> set alphabet"
  by (auto simp: low_digits_def alphabet_length)


subsection \<open>The loop\<close>

text \<open>One iteration, and the exit, of the loop of \<open>b58encode\<close>.\<close>

lemma loop_step:
  "i \<noteq> 0 \<Longrightarrow> current_length < max_length \<Longrightarrow>
   b58encode_loop i max_length code current_length =
   b58encode_loop (i div 58) max_length
     (if code = NUL then [alphabet ! nat (i mod 58)] else alphabet ! nat (i mod 58) # code)
     (current_length + 1)"
  by (subst b58encode_loop.simps) (simp add: Let_def substr_digit concat_bytes_def del: One_nat_def)

lemma loop_stop:
  "i = 0 \<or> max_length \<le> current_length \<Longrightarrow>
   b58encode_loop i max_length code current_length = (code, current_length)"
  by (subst b58encode_loop.simps) auto

text \<open>
  Computation induction over the loop, with the body already evaluated: the code after one
  iteration is the new digit alone when it was the initial \<open>'\x00'\<close>, the new digit in
  front of the old code otherwise.
\<close>

lemma loop_induct [case_names step]:
  assumes "\<And>i max_length code current_length.
             (i \<noteq> 0 \<Longrightarrow> current_length < max_length \<Longrightarrow>
                P (i div 58) max_length
                  (if code = NUL then [alphabet ! nat (i mod 58)] else alphabet ! nat (i mod 58) # code)
                  (current_length + 1))
             \<Longrightarrow> P i max_length code current_length"
  shows "P (i::int) (max_length::int) (code::bytes) (current_length::int)"
proof (induction i max_length code current_length rule: b58encode_loop.induct)
  case (1 i max_length code current_length)
  show ?case
  proof (rule assms)
    assume guard: "i \<noteq> 0" "current_length < max_length"
    then have g: "i \<noteq> 0 \<and> current_length < max_length" by simp
    show "P (i div 58) max_length
            (if code = NUL then [alphabet ! nat (i mod 58)] else alphabet ! nat (i mod 58) # code)
            (current_length + 1)"
    proof (cases "code = NUL")
      case True
      with "1.IH" [OF g refl refl refl refl] show ?thesis
        by (simp add: substr_digit del: One_nat_def)
    next
      case False
      with "1.IH" [OF g refl refl refl refl] show ?thesis
        by (simp add: substr_digit concat_bytes_def del: One_nat_def)
    qed
  qed
qed

text \<open>The counter only grows, and never beyond \<open>max_length\<close> once it is below it.\<close>

lemma loop_iterations:
  "current_length \<le> snd (b58encode_loop i max_length code current_length) \<and>
   snd (b58encode_loop i max_length code current_length) \<le> max current_length max_length"
proof (induction i max_length code current_length rule: loop_induct)
  case (step i max_length code current_length)
  show ?case
  proof (cases "i \<noteq> 0 \<and> current_length < max_length")
    case True
    with step have "current_length + 1 \<le> snd (b58encode_loop i max_length code current_length) \<and>
          snd (b58encode_loop i max_length code current_length) \<le> max (current_length + 1) max_length"
      by (simp add: loop_step)
    with True show ?thesis by simp
  next
    case False
    then show ?thesis by (auto simp: loop_stop)
  qed
qed

text \<open>
  For a non-negative \<open>i\<close> the loop runs \<open>k\<close> times and puts the \<open>k\<close> low digits of
  \<open>i\<close> in front of the code it started with; \<open>k\<close> is the number of base-58 digits of
  \<open>i\<close>, cut at the number of iterations \<open>max_length\<close> still allows.
\<close>

lemma loop_digits:
  assumes "0 \<le> i"
  shows "\<exists>k. int k \<le> max 0 (max_length - current_length) \<and>
             (int k = max 0 (max_length - current_length) \<or> i < 58 ^ k) \<and>
             (0 < k \<longrightarrow> 58 ^ (k - 1) \<le> i) \<and>
             b58encode_loop i max_length code current_length =
               (if k = 0 then code
                else if code = NUL then low_digits k i
                else low_digits k i @ code,
                current_length + int k)"
  using assms
proof (induction i max_length code current_length rule: loop_induct)
  case (step i max_length code current_length)
  show ?case
  proof (cases "i \<noteq> 0 \<and> current_length < max_length")
    case False
    then have "b58encode_loop i max_length code current_length = (code, current_length)"
      by (auto simp: loop_stop)
    moreover from False step.prems have "0 = max 0 (max_length - current_length) \<or> i < 58 ^ (0::nat)"
      by auto
    ultimately show ?thesis
      by (intro exI [of _ 0]) simp
  next
    case True
    define d where "d = alphabet ! nat (i mod 58)"
    define code' where "code' = (if code = NUL then [d] else d # code)"
    have d_idx: "nat (i mod 58) < 58" by simp
    have code'_not_NUL: "code' \<noteq> NUL"
      using alphabet_nth_not_NUL [OF d_idx] by (auto simp: code'_def d_def NUL_def)
    have run: "b58encode_loop i max_length code current_length =
                b58encode_loop (i div 58) max_length code' (current_length + 1)"
      using True by (simp add: loop_step code'_def d_def)
    from step.prems have nonneg: "0 \<le> i div 58" by simp
    from True have "i \<noteq> 0" and "current_length < max_length" by simp_all
    from step.IH [OF this nonneg, folded d_def, folded code'_def]
    obtain k where
      k_le: "int k \<le> max 0 (max_length - (current_length + 1))" and
      k_full: "int k = max 0 (max_length - (current_length + 1)) \<or> i div 58 < 58 ^ k" and
      k_low: "0 < k \<longrightarrow> 58 ^ (k - 1) \<le> i div 58" and
      res0: "b58encode_loop (i div 58) max_length code' (current_length + 1) =
              (if k = 0 then code'
               else if code' = NUL then low_digits k (i div 58)
               else low_digits k (i div 58) @ code', current_length + 1 + int k)"
      by blast
    from res0 code'_not_NUL
    have res: "b58encode_loop (i div 58) max_length code' (current_length + 1) =
              (if k = 0 then code' else low_digits k (i div 58) @ code', current_length + 1 + int k)"
      by simp
    have le: "int (Suc k) \<le> max 0 (max_length - current_length)"
      using k_le True by simp
    have full: "int (Suc k) = max 0 (max_length - current_length) \<or> i < 58 ^ Suc k"
    proof (cases "i div 58 < 58 ^ k")
      case True
      moreover have "58 * (i div 58) + i mod 58 = i" and "i mod 58 < 58" by simp_all
      ultimately have "i < 58 * 58 ^ k" by linarith
      then show ?thesis by simp
    next
      case False
      with k_full True show ?thesis by simp
    qed
    have low: "58 ^ (Suc k - 1) \<le> i"
    proof (cases k)
      case 0
      with True step.prems show ?thesis by simp
    next
      case (Suc m)
      with k_low have "58 ^ m \<le> i div 58" by simp
      moreover have "58 * (i div 58) + i mod 58 = i" and "0 \<le> i mod 58" by simp_all
      ultimately have "58 * 58 ^ m \<le> i" by linarith
      with Suc show ?thesis by simp
    qed
    have "b58encode_loop i max_length code current_length =
            (if k = 0 then code' else low_digits k (i div 58) @ code', current_length + 1 + int k)"
      by (simp only: run res)
    also have "\<dots> = (if code = NUL then low_digits (Suc k) i else low_digits (Suc k) i @ code,
             current_length + int (Suc k))"
      by (simp add: low_digits_Suc low_digits_0 code'_def d_def)
    finally have "b58encode_loop i max_length code current_length =
            (if code = NUL then low_digits (Suc k) i else low_digits (Suc k) i @ code,
             current_length + int (Suc k))" .
    with le full low show ?thesis
      by (intro exI [of _ "Suc k"]) simp
  qed
qed

lemmas b58_eval = b58encode_def b58encode_loop.simps NUL_def substr_def alphabet_def
  concat_bytes_def Let_def

text \<open>
  A negative \<open>i\<close> never becomes 0 under floor division (\<open>-1 // 58 = -1\<close>), so the loop
  is left through the counter alone.
\<close>

lemma b58encode_negative_example: "b58encode_loop (- 1) 3 NUL 0 = (''zzz'', 3)"
  by (simp add: b58_eval)

text \<open>
  Claim C3. For every non-negative integer \<open>i\<close> and every \<open>max_length = n\<close>: in the zero
  case (\<open>i = 0\<close>, or \<open>n \<le> 0\<close>, where the loop never iterates) the result of
  \<open>b58encode\<close> is exactly the one byte \<open>'\x00'\<close>; otherwise it has length at most \<open>n\<close>,
  consists of characters of the 58-character alphabet only, and its digits are the
  least-significant base-58 digits of \<open>i\<close> in order, most significant first: all \<open>n\<close> of
  them (\<open>k = n\<close>), or all the digits \<open>i\<close> has when these are fewer (\<open>58 ^ (k - 1) \<le> i < 58 ^ k\<close>).
\<close>

theorem b58encode_bounded_digits:
  assumes "0 \<le> i"
  shows "(i = 0 \<or> n \<le> 0 \<longrightarrow> b58encode i n = [CHR 0x00]) \<and>
         (0 < i \<and> 0 < n \<longrightarrow>
            int (length (b58encode i n)) \<le> n \<and>
            set (b58encode i n) \<subseteq> set alphabet \<and>
            (\<exists>k. 0 < k \<and> int k \<le> n \<and> (int k = n \<or> i < 58 ^ k) \<and> 58 ^ (k - 1) \<le> i \<and>
                 b58encode i n = low_digits k i))"
proof (intro conjI impI)
  assume "i = 0 \<or> n \<le> 0"
  then show "b58encode i n = [CHR 0x00]"
    by (auto simp: b58encode_def loop_stop NUL_def)
next
  assume pos: "0 < i \<and> 0 < n"
  from loop_digits [OF assms, of n 0 NUL]
  obtain k where
    k_le0: "int k \<le> max 0 (n - 0)" and
    k_full0: "int k = max 0 (n - 0) \<or> i < 58 ^ k" and
    k_low: "0 < k \<longrightarrow> 58 ^ (k - 1) \<le> i" and
    res0: "b58encode_loop i n NUL 0 =
            (if k = 0 then NUL else if NUL = NUL then low_digits k i else low_digits k i @ NUL,
             0 + int k)"
    by blast
  from res0 have res: "b58encode_loop i n NUL 0 = (if k = 0 then NUL else low_digits k i, int k)"
    by simp
  from k_le0 have k_le: "int k \<le> max 0 n" by simp
  from k_full0 have k_full: "int k = max 0 n \<or> i < 58 ^ k" by simp
  from k_full pos have k_pos: "0 < k"
    by (cases k) auto
  with res have enc: "b58encode i n = low_digits k i"
    by (simp add: b58encode_def)
  from enc k_le pos show "int (length (b58encode i n)) \<le> n"
    by (simp add: low_digits_length)
  from enc show "set (b58encode i n) \<subseteq> set alphabet"
    by (simp add: low_digits_alphabet)
  from k_pos k_le k_full k_low pos enc
  show "\<exists>k. 0 < k \<and> int k \<le> n \<and> (int k = n \<or> i < 58 ^ k) \<and> 58 ^ (k - 1) \<le> i \<and>
            b58encode i n = low_digits k i"
    by (intro exI [of _ k]) auto
qed

theorem b58encode_bounded_digits_witness:
  "(0::int) \<le> 100 \<and> b58encode 100 11 = ''2j'' \<and>
   int (length (b58encode 100 11)) \<le> 11 \<and> set (b58encode 100 11) \<subseteq> set alphabet \<and>
   b58encode 0 11 = [CHR 0x00]"
  using b58encode_bounded_digits [of 100 11] b58encode_bounded_digits [of 0 11]
  by (simp add: b58encode_def b58encode_loop.simps NUL_def substr_def alphabet_def concat_bytes_def Let_def)

text \<open>
  Claim C10. \<open>b58encode\<close> returns for every integer \<open>i\<close>, negative ones included, and
  every \<open>max_length\<close>: the loop is defined by recursion on the measure
  \<open>max_length - current_length\<close>, which every iteration decreases, and the number of
  iterations it performs (the final value of \<open>current_length\<close>, which starts at 0) is at
  most \<open>max_length\<close>, and 0 when \<open>max_length\<close> is negative.
\<close>

theorem b58encode_terminates:
  "\<exists>code n. b58encode_loop i max_length NUL 0 = (code, n) \<and> b58encode i max_length = code \<and>
            0 \<le> n \<and> n \<le> max 0 max_length"
proof -
  obtain code n where r: "b58encode_loop i max_length NUL 0 = (code, n)"
    by (cases "b58encode_loop i max_length NUL 0")
  with loop_iterations [of 0 i max_length NUL] have "0 \<le> n \<and> n \<le> max 0 max_length"
    by simp
  with r show ?thesis by (simp add: b58encode_def)
qed

section \<open>Properties of the contract\<close>

subsection \<open>What \<open>add_url\<close> does\<close>

text \<open>
  On a transaction with at least one reference \<open>add_url\<close> returns \<open>True\<close>, after four
  effects in this order: the code is notified, the URL and the sender are stored under
  the two keys derived from the code, and the \<open>urladd\<close> event is dispatched. On a
  transaction without references it fails before any effect.
\<close>

lemma add_url_run:
  fixes to_int h url ref
  defines "code \<equiv> b58encode (GetHeight h) 11 @ b58encode (to_int (GetScriptHash ref)) 2 @
                  b58encode (to_int url) 2"
  assumes refs: "References (GetScriptContainer h) = ref # refs"
  shows "add_url to_int h url s =
         Inr (VBool True,
              s\<lparr>storage := (storage s)(code @ ''__url'' \<mapsto> url,
                                        code @ ''__sender'' \<mapsto> GetScriptHash ref),
                log := log s @ [Notified code, Stored (code @ ''__url'') url,
                                Stored (code @ ''__sender'') (GetScriptHash ref),
                                Dispatched ''urladd'' [code, url]]\<rparr>)"
  using refs
  by (simp add: add_url_def Let_def code_def Notify_def Put_def DispatchNewURLEvent_def
      get_contextkey_for_url_def get_contextkey_for_sender_def concat_bytes_def)

lemma add_url_fail:
  "References (GetScriptContainer h) = [] \<Longrightarrow> add_url to_int h url s = Inl IndexError"
  by (simp add: add_url_def Let_def)

lemma add_url_cases:
  "add_url to_int h url s = Inr (r, s') \<Longrightarrow>
   \<exists>ref refs. References (GetScriptContainer h) = ref # refs"
  by (cases "References (GetScriptContainer h)") (simp_all add: add_url_fail)

lemma add_url_success:
  assumes "add_url to_int h url s = Inr (r, s')"
  obtains ref refs code where "References (GetScriptContainer h) = ref # refs"
    and "code = b58encode (GetHeight h) 11 @ b58encode (to_int (GetScriptHash ref)) 2 @
                b58encode (to_int url) 2"
    and "r = VBool True"
    and "s' = s\<lparr>storage := (storage s)(code @ ''__url'' \<mapsto> url,
                                         code @ ''__sender'' \<mapsto> GetScriptHash ref),
                log := log s @ [Notified code, Stored (code @ ''__url'') url,
                                Stored (code @ ''__sender'') (GetScriptHash ref),
                                Dispatched ''urladd'' [code, url]]\<rparr>"
proof -
  from assms obtain ref refs where refs: "References (GetScriptContainer h) = ref # refs"
    using add_url_cases by blast
  from assms add_url_run [OF refs, of to_int url s] that [OF refs refl] show thesis
    by simp
qed

lemma new_effects_append: "new_effects s (s\<lparr>storage := m, log := log s @ es\<rparr>) = es"
  by (simp add: new_effects_def)

lemma Get_after_add:
  "Get (s\<lparr>storage := (storage s)(c @ ''__url'' \<mapsto> u, c @ ''__sender'' \<mapsto> w), log := l\<rparr>)
       (get_contextkey_for_url c) = u"
  "Get (s\<lparr>storage := (storage s)(c @ ''__url'' \<mapsto> u, c @ ''__sender'' \<mapsto> w), log := l\<rparr>)
       (get_contextkey_for_sender c) = w"
  by (simp_all add: Get_def get_contextkey_for_url_def get_contextkey_for_sender_def concat_bytes_def)

subsection \<open>The example invocation, evaluated\<close>

lemma example_trigger: "GetTrigger (example_host t ws) = t"
  by (simp add: example_host_def GetTrigger_def)

lemma bare_host_trigger: "GetTrigger bare_host = Application"
  by (simp add: bare_host_def GetTrigger_def)

lemma bare_host_add: "add_url to_int bare_host url s = Inl IndexError"
  by (rule add_url_fail) (simp add: bare_host_def GetScriptContainer_def)

lemma OWNER_length: "length OWNER = 20"
  by (simp add: OWNER_def)

lemma OWNER_not_someone_else: "OWNER \<noteq> ''someone else''"
proof
  assume "OWNER = ''someone else''"
  then have "length OWNER = length ''someone else''" by (rule arg_cong)
  then show False by (simp add: OWNER_length)
qed

lemma example_references:
  "References (GetScriptContainer (example_host t ws)) = \<lparr>ScriptHash = [CHR 0x01, CHR 0x02]\<rparr> # []"
  by (simp add: example_host_def GetScriptContainer_def)

lemma example_height: "GetHeight (example_host t ws) = 100"
  by (simp add: example_host_def GetHeight_def)

lemma example_sender: "GetScriptHash \<lparr>ScriptHash = [CHR 0x01, CHR 0x02]\<rparr> = [CHR 0x01, CHR 0x02]"
  by (simp add: GetScriptHash_def)

lemma example_segments:
  "b58encode 100 11 = ''2j''"
  "b58encode (be_int [CHR 0x01, CHR 0x02]) 2 = ''5T''"
  "b58encode (be_int ''https://example.com'') 2 = ''zt''"
  by (simp_all add: be_int_def b58_eval)

lemma example_add:
  "add_url be_int (example_host t ws) ''https://example.com'' empty_ledger =
   Inr (VBool True,
        \<lparr>storage = [''2j5Tzt__url'' \<mapsto> ''https://example.com'',
                    ''2j5Tzt__sender'' \<mapsto> [CHR 0x01, CHR 0x02]],
         log = [Notified ''2j5Tzt'',
                Stored ''2j5Tzt__url'' ''https://example.com'',
                Stored ''2j5Tzt__sender'' [CHR 0x01, CHR 0x02],
                Dispatched ''urladd'' [''2j5Tzt'', ''https://example.com'']]\<rparr>)"
  using add_url_run [OF example_references, of be_int t ws "''https://example.com''" empty_ledger]
  by (simp add: example_height example_sender example_segments)
     (simp add: empty_ledger_def)

lemma example_log:
  "new_effects empty_ledger
     \<lparr>storage = m,
      log = [Notified ''2j5Tzt'',
             Stored ''2j5Tzt__url'' ''https://example.com'',
             Stored ''2j5Tzt__sender'' [CHR 0x01, CHR 0x02],
             Dispatched ''urladd'' [''2j5Tzt'', ''https://example.com'']]\<rparr> =
   [Notified ''2j5Tzt'',
    Stored ''2j5Tzt__url'' ''https://example.com'',
    Stored ''2j5Tzt__sender'' [CHR 0x01, CHR 0x02],
    Dispatched ''urladd'' [''2j5Tzt'', ''https://example.com'']]"
  by (simp add: new_effects_def empty_ledger_def)

subsection \<open>The entry point\<close>

text \<open>
  The claim that \<open>addURL\<close> returns the generated code fails: the invocation of the example
  returns the boolean \<open>True\<close>, while the code it generated, \<open>2j5Tzt\<close>, is only notified
  and dispatched; and on a transaction without references it returns nothing at all.
\<close>

theorem addURL_returns_code_counterexample:
  "Main be_int (example_host Application []) ''addURL'' [''https://example.com''] empty_ledger =
     Inr (VBool True,
          \<lparr>storage = [''2j5Tzt__url'' \<mapsto> ''https://example.com'',
                      ''2j5Tzt__sender'' \<mapsto> [CHR 0x01, CHR 0x02]],
           log = [Notified ''2j5Tzt'',
                  Stored ''2j5Tzt__url'' ''https://example.com'',
                  Stored ''2j5Tzt__sender'' [CHR 0x01, CHR 0x02],
                  Dispatched ''urladd'' [''2j5Tzt'', ''https://example.com'']]\<rparr>) \<and>
   VBool True \<noteq> VBytes ''2j5Tzt'' \<and>
   Main be_int bare_host ''addURL'' [''https://example.com''] empty_ledger = Inl IndexError"
  by (simp add: Main_def example_trigger bare_host_trigger example_add bare_host_add)

text \<open>
  Claim C1, amended. For every url, invoking \<open>addURL\<close> with exactly one argument in
  application mode, on a transaction with at least one reference, returns the boolean
  \<open>True\<close>; the generated code is not returned: it is the code whose notification is the
  first effect of the invocation and which the \<open>urladd\<close> event, the last effect, carries
  together with the url.
\<close>

theorem addURL_returns_true:
  assumes "GetTrigger h = Application"
    and "References (GetScriptContainer h) = ref # refs"
  shows "\<exists>s' code rest.
           Main to_int h ''addURL'' [url] s = Inr (VBool True, s') \<and>
           new_effects s s' = Notified code # rest \<and>
           last rest = Dispatched ''urladd'' [code, url]"
  using assms(1) add_url_run [OF assms(2), of to_int url s]
  by (simp add: Main_def new_effects_append)

theorem addURL_returns_true_witness:
  "GetTrigger (example_host Application []) = Application \<and>
   References (GetScriptContainer (example_host Application [])) =
     \<lparr>ScriptHash = [CHR 0x01, CHR 0x02]\<rparr> # [] \<and>
   (\<exists>s' code rest.
      Main be_int (example_host Application []) ''addURL'' [''https://example.com''] empty_ledger =
        Inr (VBool True, s') \<and>
      new_effects empty_ledger s' = Notified code # rest \<and>
      last rest = Dispatched ''urladd'' [code, ''https://example.com''])"
proof -
  have t: "GetTrigger (example_host Application []) = Application"
    by (rule example_trigger)
  have r: "References (GetScriptContainer (example_host Application [])) =
             \<lparr>ScriptHash = [CHR 0x01, CHR 0x02]\<rparr> # []"
    by (rule example_references)
  from t r addURL_returns_true [OF t r, of be_int "''https://example.com''" empty_ledger]
  show ?thesis by simp
qed

text \<open>
  Claim C5. In verification mode the entry point returns \<open>True\<close> if and only if the
  invocation is witnessed by \<open>OWNER\<close>, whatever the operation and the arguments are, and
  leaves the ledger as it was, so no add, get or get-info is performed; under a trigger
  that is neither verification nor application it returns \<open>False\<close>.
\<close>

theorem verification_gate:
  "(GetTrigger h = Verification \<longrightarrow>
      Main to_int h operation args s = Inr (VBool (CheckWitness h OWNER), s)) \<and>
   (GetTrigger h \<noteq> Verification \<and> GetTrigger h \<noteq> Application \<longrightarrow>
      Main to_int h operation args s = Inr (VBool False, s))"
  by (simp add: Main_def Let_def)

theorem verification_gate_witness:
  "GetTrigger (example_host Verification [OWNER]) = Verification \<and>
   Main be_int (example_host Verification [OWNER]) ''addURL'' [''https://example.com''] empty_ledger =
     Inr (VBool True, empty_ledger) \<and>
   GetTrigger (example_host Verification [''someone else'']) = Verification \<and>
   Main be_int (example_host Verification [''someone else'']) ''getURL'' [''2j5Tzt''] empty_ledger =
     Inr (VBool False, empty_ledger) \<and>
   GetTrigger (example_host OtherTrigger [OWNER]) \<noteq> Verification \<and>
   GetTrigger (example_host OtherTrigger [OWNER]) \<noteq> Application \<and>
   Main be_int (example_host OtherTrigger [OWNER]) ''getURL'' [''2j5Tzt''] empty_ledger =
     Inr (VBool False, empty_ledger)"
  using verification_gate [of "example_host Verification [OWNER]" be_int "''addURL''"
          "[''https://example.com'']" empty_ledger]
        verification_gate [of "example_host Verification [''someone else'']" be_int "''getURL''"
          "[''2j5Tzt'']" empty_ledger]
        verification_gate [of "example_host OtherTrigger [OWNER]" be_int "''getURL''"
          "[''2j5Tzt'']" empty_ledger]
  by (simp add: example_host_def GetTrigger_def CheckWitness_def OWNER_not_someone_else)

text \<open>
  The claim that a wrong number of arguments gives the literal
  \<open>incorrect number of arguments\<close> fails in one letter: the value returned is
  \<open>Incorrect number of arguments\<close>.
\<close>

theorem arg_length_literal_counterexample:
  "Main be_int (example_host Application []) ''addURL'' [] empty_ledger =
     Inr (VBytes ''Incorrect number of arguments'', empty_ledger) \<and>
   Main be_int (example_host Application []) ''addURL'' [] empty_ledger \<noteq>
     Inr (VBytes ''incorrect number of arguments'', empty_ledger)"
  by (simp add: Main_def example_host_def GetTrigger_def)

text \<open>
  Claim C6, amended. In application mode, every operation name other than the four known
  ones returns the byte string \<open>unknown operation\<close>, and every call of \<open>addURL\<close>,
  \<open>getURL\<close> or \<open>getURLInfo\<close> whose argument list does not have exactly one element returns
  the byte string \<open>Incorrect number of arguments\<close>; both are ordinary return values, and
  the ledger is unchanged.
\<close>

theorem dispatch_error_values:
  assumes "GetTrigger h = Application"
  shows "(operation \<notin> {''shortenerURL'', ''addURL'', ''getURL'', ''getURLInfo''} \<longrightarrow>
            Main to_int h operation args s = Inr (VBytes ''unknown operation'', s)) \<and>
         (operation \<in> {''addURL'', ''getURL'', ''getURLInfo''} \<and> length args \<noteq> 1 \<longrightarrow>
            Main to_int h operation args s = Inr (VBytes ''Incorrect number of arguments'', s))"
  using assms by (auto simp: Main_def Let_def)

theorem dispatch_error_values_witness:
  "GetTrigger (example_host Application []) = Application \<and>
   ''frobnicate'' \<notin> {''shortenerURL'', ''addURL'', ''getURL'', ''getURLInfo''} \<and>
   Main be_int (example_host Application []) ''frobnicate'' [] empty_ledger =
     Inr (VBytes ''unknown operation'', empty_ledger) \<and>
   ''addURL'' \<in> {''addURL'', ''getURL'', ''getURLInfo''} \<and> length [''a'', ''b''] \<noteq> 1 \<and>
   Main be_int (example_host Application []) ''addURL'' [''a'', ''b''] empty_ledger =
     Inr (VBytes ''Incorrect number of arguments'', empty_ledger)"
proof -
  have t: "GetTrigger (example_host Application []) = Application"
    by (rule example_trigger)
  from t dispatch_error_values [OF t, of "''frobnicate''" be_int "[]" empty_ledger]
       dispatch_error_values [OF t, of "''addURL''" be_int "[''a'', ''b'']" empty_ledger]
  show ?thesis by simp
qed

subsection \<open>Round trip\<close>

text \<open>
  The claim that \<open>get\<close> of the value returned by \<open>add\<close> is the url fails, since \<open>add\<close>
  returns no code: in the example no byte string is returned that could be looked up.
\<close>

theorem roundtrip_returned_value_counterexample:
  "\<not> (\<exists>code s1.
        Main be_int (example_host Application []) ''addURL'' [''https://example.com''] empty_ledger =
          Inr (VBytes code, s1) \<and>
        Main be_int (example_host Application []) ''getURL'' [code] s1 =
          Inr (VBytes ''https://example.com'', s1))"
  by (simp add: Main_def example_trigger example_add)

text \<open>
  Claim C2, amended. For every url, after a successful \<open>add(url)\<close> (which returns \<open>True\<close>)
  has generated and notified \<open>code\<close>, \<open>get(code)\<close> returns exactly url, and
  \<open>get_info(code)\<close> returns the pair of url and sender, where sender is the script hash of
  the first reference of the transaction that carried the add.
\<close>

theorem roundtrip_generated_code:
  assumes "add_url to_int h url s = Inr (r, s1)"
    and "new_effects s s1 = Notified code # rest"
  shows "get_url code s1 = (VBytes url, s1) \<and>
         (\<exists>ref refs. References (GetScriptContainer h) = ref # refs \<and>
            get_url_info code s1 = (VList [VBytes url, VBytes (GetScriptHash ref)], s1))"
proof -
  from assms(1) obtain ref refs c where
    refs: "References (GetScriptContainer h) = ref # refs" and
    s1: "s1 = s\<lparr>storage := (storage s)(c @ ''__url'' \<mapsto> url,
                                          c @ ''__sender'' \<mapsto> GetScriptHash ref),
                 log := log s @ [Notified c, Stored (c @ ''__url'') url,
                                 Stored (c @ ''__sender'') (GetScriptHash ref),
                                 Dispatched ''urladd'' [c, url]]\<rparr>"
    by (rule add_url_success)
  from s1 assms(2) have code: "code = c"
    by (simp add: new_effects_append)
  have "Get s1 (get_contextkey_for_url code) = url"
    unfolding s1 code by (rule Get_after_add)
  moreover have "Get s1 (get_contextkey_for_sender code) = GetScriptHash ref"
    unfolding s1 code by (rule Get_after_add)
  ultimately have "get_url code s1 = (VBytes url, s1)"
    and "get_url_info code s1 = (VList [VBytes url, VBytes (GetScriptHash ref)], s1)"
    by (simp_all add: get_url_def get_url_info_def)
  with refs show ?thesis by blast
qed

theorem roundtrip_generated_code_witness:
  "\<exists>s1. add_url be_int (example_host Application []) ''https://example.com'' empty_ledger =
           Inr (VBool True, s1) \<and>
        new_effects empty_ledger s1 =
           Notified ''2j5Tzt'' #
           [Stored ''2j5Tzt__url'' ''https://example.com'',
            Stored ''2j5Tzt__sender'' [CHR 0x01, CHR 0x02],
            Dispatched ''urladd'' [''2j5Tzt'', ''https://example.com'']] \<and>
        get_url ''2j5Tzt'' s1 = (VBytes ''https://example.com'', s1) \<and>
        get_url_info ''2j5Tzt'' s1 =
           (VList [VBytes ''https://example.com'', VBytes [CHR 0x01, CHR 0x02]], s1)"
proof -
  let ?s1 = "\<lparr>storage = [''2j5Tzt__url'' \<mapsto> ''https://example.com'',
                          ''2j5Tzt__sender'' \<mapsto> [CHR 0x01, CHR 0x02]],
               log = [Notified ''2j5Tzt'',
                      Stored ''2j5Tzt__url'' ''https://example.com'',
                      Stored ''2j5Tzt__sender'' [CHR 0x01, CHR 0x02],
                      Dispatched ''urladd'' [''2j5Tzt'', ''https://example.com'']]\<rparr>"
  have run: "add_url be_int (example_host Application []) ''https://example.com'' empty_ledger =
               Inr (VBool True, ?s1)"
    by (rule example_add)
  have eff: "new_effects empty_ledger ?s1 =
           Notified ''2j5Tzt'' #
           [Stored ''2j5Tzt__url'' ''https://example.com'',
            Stored ''2j5Tzt__sender'' [CHR 0x01, CHR 0x02],
            Dispatched ''urladd'' [''2j5Tzt'', ''https://example.com'']]"
    by (rule example_log)
  from roundtrip_generated_code [OF run eff] run eff
  show ?thesis
    by (simp add: example_references example_sender del: fun_upd_apply)
qed

subsection \<open>The generated code\<close>

text \<open>
  Claim C4. For every height, sender and url, the code \<open>add\<close> produces (the one it
  notifies, and under which it stores the url) is the concatenation, in this order and
  with nothing in between, of \<open>b58encode(height, 11)\<close>, \<open>b58encode(sender, 2)\<close> and
  \<open>b58encode(url, 2)\<close>.
\<close>

theorem code_is_concatenation:
  assumes "References (GetScriptContainer h) = ref # refs"
  shows "\<exists>s' rest.
           add_url to_int h url s = Inr (VBool True, s') \<and>
           new_effects s s' =
             Notified (b58encode (GetHeight h) 11 @ b58encode (to_int (GetScriptHash ref)) 2 @
                       b58encode (to_int url) 2) # rest \<and>
           storage s' ((b58encode (GetHeight h) 11 @ b58encode (to_int (GetScriptHash ref)) 2 @
                        b58encode (to_int url) 2) @ ''__url'') = Some url"
  using add_url_run [OF assms, of to_int url s]
  by (simp add: new_effects_append)

theorem code_is_concatenation_witness:
  "References (GetScriptContainer (example_host Application [])) =
     \<lparr>ScriptHash = [CHR 0x01, CHR 0x02]\<rparr> # [] \<and>
   (\<exists>s' rest.
      add_url be_int (example_host Application []) ''https://example.com'' empty_ledger =
        Inr (VBool True, s') \<and>
      new_effects empty_ledger s' = Notified (''2j'' @ ''5T'' @ ''zt'') # rest \<and>
      storage s' ((''2j'' @ ''5T'' @ ''zt'') @ ''__url'') = Some ''https://example.com'')"
  using code_is_concatenation [OF example_references, of be_int Application "[]"
          "''https://example.com''" empty_ledger]
  by (simp add: example_references example_height example_sender example_segments)

text \<open>
  Claim C9. The code is a function of height, sender and url alone: two runs of \<open>add\<close>
  on the same url, under hosts that agree on the height and on the script hash of the
  first reference and may differ in everything else, from any two ledgers, notify the
  same code and add the same effects.
\<close>

theorem code_deterministic:
  assumes "GetHeight h1 = GetHeight h2"
    and "References (GetScriptContainer h1) = ref1 # refs1"
    and "References (GetScriptContainer h2) = ref2 # refs2"
    and "GetScriptHash ref1 = GetScriptHash ref2"
  shows "\<exists>s1' s2' code rest.
           add_url to_int h1 url s1 = Inr (VBool True, s1') \<and>
           add_url to_int h2 url s2 = Inr (VBool True, s2') \<and>
           new_effects s1 s1' = Notified code # rest \<and>
           new_effects s2 s2' = Notified code # rest"
  using add_url_run [OF assms(2), of to_int url s1] add_url_run [OF assms(3), of to_int url s2]
    assms(1) assms(4)
  by (simp add: new_effects_append)

theorem code_deterministic_witness:
  "GetHeight (example_host Application []) = GetHeight (example_host Verification [OWNER]) \<and>
   (\<exists>s1' s2' code rest.
      add_url be_int (example_host Application []) ''https://example.com'' empty_ledger =
        Inr (VBool True, s1') \<and>
      add_url be_int (example_host Verification [OWNER]) ''https://example.com''
        \<lparr>storage = [''k'' \<mapsto> ''v''], log = [Notified ''earlier'']\<rparr> = Inr (VBool True, s2') \<and>
      new_effects empty_ledger s1' = Notified code # rest \<and>
      new_effects \<lparr>storage = [''k'' \<mapsto> ''v''], log = [Notified ''earlier'']\<rparr> s2' =
        Notified code # rest)"
proof -
  have hts: "GetHeight (example_host Application []) = GetHeight (example_host Verification [OWNER])"
    by (simp add: example_height)
  from hts code_deterministic [OF hts example_references example_references refl]
  show ?thesis by blast
qed

subsection \<open>Effects on the ledger\<close>

text \<open>
  Claim C7. \<open>get\<close> and \<open>get_info\<close> leave the ledger unchanged. An invocation of the entry
  point that returns is either an \<open>addURL\<close> of exactly one url in application mode, and then
  it writes exactly the two keys \<open>code ++ '__url'\<close> and \<open>code ++ '__sender'\<close> of the generated
  code, in this order, with the url and the sender as values, so that the storage afterwards
  is the storage before with these two entries set; or it is anything else, and then it
  leaves the ledger unchanged. No other key is written by any operation.
\<close>

theorem storage_frame:
  assumes "Main to_int h operation args s = Inr (r, s')"
  shows "snd (get_url code s) = s \<and> snd (get_url_info code s) = s \<and>
         (operation \<noteq> ''addURL'' \<longrightarrow> s' = s) \<and>
         (if GetTrigger h = Application \<and> operation = ''addURL'' \<and> length args = 1
          then \<exists>url ref refs c.
                 operation = ''addURL'' \<and> args = [url] \<and>
                 References (GetScriptContainer h) = ref # refs \<and>
                 c = b58encode (GetHeight h) 11 @ b58encode (to_int (GetScriptHash ref)) 2 @
                     b58encode (to_int url) 2 \<and>
                 written_keys (new_effects s s') = [c @ ''__url'', c @ ''__sender''] \<and>
                 storage s' = (storage s)(c @ ''__url'' \<mapsto> url,
                                          c @ ''__sender'' \<mapsto> GetScriptHash ref) \<and>
                 s' \<noteq> s
          else s' = s)"
proof -
  have reads: "snd (get_url code s) = s \<and> snd (get_url_info code s) = s"
    by (simp add: get_url_def get_url_info_def)
  show ?thesis
  proof (cases "GetTrigger h = Application \<and> operation = ''addURL'' \<and> length args = 1")
    case False
    with assms have "s' = s"
      by (auto simp: Main_def Let_def get_url_def get_url_info_def split: if_splits)
    with reads False show ?thesis by simp
  next
    case True
    then obtain url where args: "args = [url]"
      by (cases args) auto
    with True assms have add: "add_url to_int h url s = Inr (r, s')"
      by (simp add: Main_def)
    from add obtain ref refs c where
      refs: "References (GetScriptContainer h) = ref # refs" and
      c: "c = b58encode (GetHeight h) 11 @ b58encode (to_int (GetScriptHash ref)) 2 @
              b58encode (to_int url) 2" and
      s': "s' = s\<lparr>storage := (storage s)(c @ ''__url'' \<mapsto> url,
                                            c @ ''__sender'' \<mapsto> GetScriptHash ref),
                   log := log s @ [Notified c, Stored (c @ ''__url'') url,
                                   Stored (c @ ''__sender'') (GetScriptHash ref),
                                   Dispatched ''urladd'' [c, url]]\<rparr>"
      by (rule add_url_success)
    from s' have "written_keys (new_effects s s') = [c @ ''__url'', c @ ''__sender'']"
      by (simp add: new_effects_append)
    moreover from s' have "storage s' = (storage s)(c @ ''__url'' \<mapsto> url,
                                      c @ ''__sender'' \<mapsto> GetScriptHash ref)"
      by simp
    moreover have "s' \<noteq> s"
    proof
      assume "s' = s"
      then have "length (log s') = length (log s)" by simp
      with s' show False by simp
    qed
    ultimately have "\<exists>url ref refs c.
             operation = ''addURL'' \<and> args = [url] \<and>
             References (GetScriptContainer h) = ref # refs \<and>
             c = b58encode (GetHeight h) 11 @ b58encode (to_int (GetScriptHash ref)) 2 @
                 b58encode (to_int url) 2 \<and>
             written_keys (new_effects s s') = [c @ ''__url'', c @ ''__sender''] \<and>
             storage s' = (storage s)(c @ ''__url'' \<mapsto> url,
                                      c @ ''__sender'' \<mapsto> GetScriptHash ref) \<and>
             s' \<noteq> s"
      using True args refs c by blast
    with reads True show ?thesis by simp
  qed
qed

theorem storage_frame_witness:
  "Main be_int (example_host Application []) ''addURL'' [''https://example.com''] empty_ledger =
     Inr (VBool True,
          \<lparr>storage = [''2j5Tzt__url'' \<mapsto> ''https://example.com'',
                      ''2j5Tzt__sender'' \<mapsto> [CHR 0x01, CHR 0x02]],
           log = [Notified ''2j5Tzt'',
                  Stored ''2j5Tzt__url'' ''https://example.com'',
                  Stored ''2j5Tzt__sender'' [CHR 0x01, CHR 0x02],
                  Dispatched ''urladd'' [''2j5Tzt'', ''https://example.com'']]\<rparr>) \<and>
   written_keys (new_effects empty_ledger
          \<lparr>storage = [''2j5Tzt__url'' \<mapsto> ''https://example.com'',
                      ''2j5Tzt__sender'' \<mapsto> [CHR 0x01, CHR 0x02]],
           log = [Notified ''2j5Tzt'',
                  Stored ''2j5Tzt__url'' ''https://example.com'',
                  Stored ''2j5Tzt__sender'' [CHR 0x01, CHR 0x02],
                  Dispatched ''urladd'' [''2j5Tzt'', ''https://example.com'']]\<rparr>) =
     [''2j5Tzt__url'', ''2j5Tzt__sender''] \<and>
   Main be_int (example_host Application []) ''getURL'' [''2j5Tzt''] empty_ledger =
     Inr (VBytes [], empty_ledger) \<and>
   snd (get_url ''2j5Tzt'' empty_ledger) = empty_ledger"
proof -
  let ?s1 = "\<lparr>storage = [''2j5Tzt__url'' \<mapsto> ''https://example.com'',
                          ''2j5Tzt__sender'' \<mapsto> [CHR 0x01, CHR 0x02]],
               log = [Notified ''2j5Tzt'',
                      Stored ''2j5Tzt__url'' ''https://example.com'',
                      Stored ''2j5Tzt__sender'' [CHR 0x01, CHR 0x02],
                      Dispatched ''urladd'' [''2j5Tzt'', ''https://example.com'']]\<rparr>"
  have add: "Main be_int (example_host Application []) ''addURL'' [''https://example.com'']
               empty_ledger = Inr (VBool True, ?s1)"
    by (simp add: Main_def example_trigger example_add)
  have get: "Main be_int (example_host Application []) ''getURL'' [''2j5Tzt''] empty_ledger =
               Inr (VBytes [], empty_ledger)"
    by (simp add: Main_def example_trigger get_url_def Get_def get_contextkey_for_url_def)
       (simp add: empty_ledger_def)
  from storage_frame [OF add, of "''2j5Tzt''"]
  have "written_keys (new_effects empty_ledger ?s1) = [''2j5Tzt__url'', ''2j5Tzt__sender'']"
    by (auto simp: example_trigger example_references example_height example_sender
        example_segments)
  moreover from storage_frame [OF get, of "''2j5Tzt''"]
  have "snd (get_url ''2j5Tzt'' empty_ledger) = empty_ledger"
    by simp
  ultimately show ?thesis using add get by simp
qed

text \<open>
  Claim C8. Every successful \<open>add\<close> has exactly four effects, in this order: the generated
  code is notified, then the two entries are stored, then one \<open>urladd(code, url)\<close> event is
  dispatched. So the code is notified before anything is written, and there is exactly
  one \<open>urladd\<close> event.
\<close>

theorem notify_before_store:
  assumes "add_url to_int h url s = Inr (r, s')"
  shows "\<exists>code sender.
           new_effects s s' =
             [Notified code, Stored (code @ ''__url'') url, Stored (code @ ''__sender'') sender,
              Dispatched ''urladd'' [code, url]] \<and>
           log s' = log s @ new_effects s s'"
proof -
  from assms obtain ref refs code where
    "s' = s\<lparr>storage := (storage s)(code @ ''__url'' \<mapsto> url,
                                     code @ ''__sender'' \<mapsto> GetScriptHash ref),
            log := log s @ [Notified code, Stored (code @ ''__url'') url,
                            Stored (code @ ''__sender'') (GetScriptHash ref),
                            Dispatched ''urladd'' [code, url]]\<rparr>"
    by (rule add_url_success)
  then show ?thesis
    by (simp add: new_effects_append)
qed

theorem notify_before_store_witness:
  "\<exists>s'. add_url be_int (example_host Application []) ''https://example.com'' empty_ledger =
           Inr (VBool True, s') \<and>
        (\<exists>code sender.
           new_effects empty_ledger s' =
             [Notified code, Stored (code @ ''__url'') ''https://example.com'',
              Stored (code @ ''__sender'') sender,
              Dispatched ''urladd'' [code, ''https://example.com'']] \<and>
           log s' = log empty_ledger @ new_effects empty_ledger s')"
proof -
  let ?s1 = "\<lparr>storage = [''2j5Tzt__url'' \<mapsto> ''https://example.com'',
                          ''2j5Tzt__sender'' \<mapsto> [CHR 0x01, CHR 0x02]],
               log = [Notified ''2j5Tzt'',
                      Stored ''2j5Tzt__url'' ''https://example.com'',
                      Stored ''2j5Tzt__sender'' [CHR 0x01, CHR 0x02],
                      Dispatched ''urladd'' [''2j5Tzt'', ''https://example.com'']]\<rparr>"
  have run: "add_url be_int (example_host Application []) ''https://example.com'' empty_ledger =
               Inr (VBool True, ?s1)"
    by (rule example_add)
  from notify_before_store [OF run] run show ?thesis
    by blast
qed

end
